theory Spec2Isabelle
  imports Main "HOL-Library.AList"
begin

section \<open>Text\<close>

text \<open>
  Python strings are modelled as lists of 8-bit characters, read as the code points
  below 256. On these code points \<^verbatim>\<open>str.lower\<close> maps the capital letters
  \<^verbatim>\<open>A-Z\<close> and the Latin-1 capitals (192-214, 216-222) to the code point 32 above
  them and leaves every other character alone.
\<close>

definition lower_char :: "char \<Rightarrow> char" where
  "lower_char c =
     (let n = (of_char c :: nat)
      in if (65 \<le> n \<and> n \<le> 90) \<or> (192 \<le> n \<and> n \<le> 214) \<or> (216 \<le> n \<and> n \<le> 222)
         then char_of (n + 32) else c)"

definition lower :: "string \<Rightarrow> string" where
  "lower s = map lower_char s"

text \<open>\<^verbatim>\<open>a.startswith(b)\<close>, with the arguments in the order of \<^verbatim>\<open>b in a\<close>.\<close>

fun starts_with :: "string \<Rightarrow> string \<Rightarrow> bool" where
  "starts_with [] ys = True"
| "starts_with (x # xs) [] = False"
| "starts_with (x # xs) (y # ys) = (x = y \<and> starts_with xs ys)"

text \<open>\<^verbatim>\<open>sub in s\<close> on two strings: \<^verbatim>\<open>sub\<close> occurs in \<^verbatim>\<open>s\<close> as a contiguous run.\<close>

fun str_in :: "string \<Rightarrow> string \<Rightarrow> bool" where
  "str_in sub [] = (sub = [])"
| "str_in sub (y # ys) = (starts_with sub (y # ys) \<or> str_in sub ys)"

section \<open>Exceptions\<close>

datatype exn =
    AssertionError
  | FileNotFoundError
  | NotADirectoryError
  | IsADirectoryError
  | JSONDecodeError
  | KeyError
  | TypeError
  | ValueError
  | CursesError
  | KeyboardInterrupt
  | URLError string

section \<open>Loading the agenda (the head of \<^verbatim>\<open>main\<close>)\<close>

text \<open>
  A JSON object of the agenda is a dictionary from field names to values; the program
  reads the fields \<^verbatim>\<open>title\<close> and \<^verbatim>\<open>presno\<close> only, both strings.
\<close>

type_synonym obj = "(string \<times> string) list"

text \<open>
  What \<^verbatim>\<open>open(...)\<close> followed by \<^verbatim>\<open>json.load(f)\<close> meets: no file, a file that is
  not JSON, or the parsed sequence of objects.
\<close>

datatype agenda_file = Missing | Malformed | Parsed "obj list"

definition has_field :: "string \<Rightarrow> obj \<Rightarrow> bool" where
  "has_field k ob = (map_of ob k \<noteq> None)"

definition getitem :: "obj \<Rightarrow> string \<Rightarrow> exn + string" where
  "getitem ob k = (case map_of ob k of None \<Rightarrow> Inl KeyError | Some v \<Rightarrow> Inr v)"

text \<open>\<^verbatim>\<open>filtered = list(filter(lambda o: "presno" in o, object))\<close>\<close>

definition filtered :: "obj list \<Rightarrow> obj list" where
  "filtered object = filter (has_field ''presno'') object"

text \<open>
  \<^verbatim>\<open>zip(map(lambda o: o["title"], filtered), filtered)\<close>, consumed from the left: the first
  object without a title raises \<^verbatim>\<open>KeyError\<close>.
\<close>

fun zip_titles :: "obj list \<Rightarrow> exn + (string \<times> obj) list" where
  "zip_titles [] = Inr []"
| "zip_titles (ob # obs) =
     (case getitem ob ''title'' of
        Inl e \<Rightarrow> Inl e
      | Inr t \<Rightarrow> (case zip_titles obs of Inl e \<Rightarrow> Inl e | Inr ps \<Rightarrow> Inr ((t, ob) # ps)))"

text \<open>
  \<^verbatim>\<open>dict(pairs)\<close>: the pairs are stored from the left; a key already present keeps its
  position and takes the new value.
\<close>

definition dict :: "('k \<times> 'v) list \<Rightarrow> ('k \<times> 'v) list" where
  "dict ps = foldl (\<lambda>d (k, v). AList.update k v d) [] ps"

record catalog =
  jmm_kv :: "(string \<times> obj) list"
  items :: "string list"

definition main_load :: "agenda_file \<Rightarrow> exn + catalog" where
  "main_load f =
     (case f of
        Missing \<Rightarrow> Inl FileNotFoundError
      | Malformed \<Rightarrow> Inl JSONDecodeError
      | Parsed object \<Rightarrow>
          (case zip_titles (filtered object) of
             Inl e \<Rightarrow> Inl e
           | Inr ps \<Rightarrow> Inr \<lparr>jmm_kv = dict ps, items = map fst (dict ps)\<rparr>))"

section \<open>Filtering (the head of the loop body)\<close>

definition filtered_items :: "string \<Rightarrow> string list \<Rightarrow> string list" where
  "filtered_items search_text its =
     (if search_text \<noteq> []
      then filter (\<lambda>item. str_in (lower search_text) (lower item)) its
      else its)"


section \<open>Files\<close>

text \<open>
  A path is the list of names from the root to a file or directory, as the operating
  system resolves it. The disk holds the directories and the regular files with their
  contents; the root is always a directory, and every directory can be written to.
\<close>

type_synonym path = "string list"

record disk =
  dirs :: "path set"
  files :: "path \<rightharpoonup> string"

definition is_dir :: "disk \<Rightarrow> path \<Rightarrow> bool" where
  "is_dir d p = (p = [] \<or> p \<in> dirs d)"

text \<open>The components of a path string, cut at every \<^verbatim>\<open>/\<close>.\<close>

fun split_slash :: "string \<Rightarrow> string list" where
  "split_slash [] = [[]]"
| "split_slash (c # cs) =
     (if c = CHR ''/'' then [] # split_slash cs
      else (case split_slash cs of [] \<Rightarrow> [[c]] | r # rs \<Rightarrow> (c # r) # rs))"

text \<open>
  Resolution of directory components from the directory \<open>cur\<close>: an empty component and
  \<^verbatim>\<open>.\<close> stay, \<^verbatim>\<open>..\<close> goes to the parent, a name goes down; each step needs the
  directory it starts from.
\<close>

fun walk :: "disk \<Rightarrow> path \<Rightarrow> string list \<Rightarrow> exn + path" where
  "walk d cur [] = Inr cur"
| "walk d cur (c # cs) =
     (if \<not> is_dir d cur
      then Inl (if files d cur \<noteq> None then NotADirectoryError else FileNotFoundError)
      else if c = [] \<or> c = ''.'' then walk d cur cs
      else if c = ''..'' then walk d (butlast cur) cs
      else walk d (cur @ [c]) cs)"

text \<open>
  Where \<^verbatim>\<open>base / name\<close> lies: an absolute \<open>name\<close> replaces \<open>base\<close>; the components
  before the last are resolved as directories, and the last one is the name of the file
  (the name of a cache file ends in \<^verbatim>\<open>_abstract.txt\<close>, so it is neither empty nor
  \<^verbatim>\<open>.\<close> nor \<^verbatim>\<open>..\<close>). The error is the one \<^verbatim>\<open>open\<close> raises when the file cannot
  be reached.
\<close>

definition target :: "disk \<Rightarrow> path \<Rightarrow> string \<Rightarrow> exn + path" where
  "target d base name =
     (case walk d (if take 1 name = ''/'' then [] else base) (butlast (split_slash name)) of
        Inl e \<Rightarrow> Inl e
      | Inr parent \<Rightarrow>
          if is_dir d parent then Inr (parent @ [last (split_slash name)])
          else Inl (if files d parent \<noteq> None then NotADirectoryError else FileNotFoundError))"

abbreviation NUL :: char where "NUL \<equiv> CHR 0x00"

text \<open>
  \<^verbatim>\<open>(base / name).exists()\<close>: a file or a directory is there; a path that cannot be
  resolved, or that holds a NUL character, does not exist.
\<close>

definition path_exists :: "disk \<Rightarrow> path \<Rightarrow> string \<Rightarrow> bool" where
  "path_exists d base name =
     (NUL \<notin> set name
      \<and> (case target d base name of
            Inl e \<Rightarrow> False
          | Inr p \<Rightarrow> files d p \<noteq> None \<or> p \<in> dirs d))"

text \<open>
  \<^verbatim>\<open>open(base / name, 'w')\<close> for a path that does not exist: the path of the file it
  creates, or the exception.
\<close>

definition open_w :: "disk \<Rightarrow> path \<Rightarrow> string \<Rightarrow> exn + path" where
  "open_w d base name = (if NUL \<in> set name then Inl ValueError else target d base name)"

section \<open>The abstract cache (\<^verbatim>\<open>lookup_abstract\<close>)\<close>

text \<open>
  \<^verbatim>\<open>open(cache_file, 'r')\<close> opens the file in text mode; with the default
  \<^verbatim>\<open>newline=None\<close>, \<^verbatim>\<open>read()\<close> returns the stored characters with every
  \<^verbatim>\<open>\r\n\<close> and every remaining \<^verbatim>\<open>\r\<close> replaced by \<^verbatim>\<open>\n\<close>.
  \<^verbatim>\<open>open(cache_file, 'w')\<close> creates the file (empty), and on POSIX \<^verbatim>\<open>write\<close>
  stores the characters it is given unchanged.
\<close>

abbreviation CR :: char where "CR \<equiv> CHR 0x0D"
abbreviation LF :: char where "LF \<equiv> CHR 0x0A"
abbreviation DQ :: char where "DQ \<equiv> CHR 0x22"

fun read_text :: "string \<Rightarrow> string" where
  "read_text [] = []"
| "read_text [c] = (if c = CR then [LF] else [c])"
| "read_text (c # d # cs) =
     (if c = CR then (if d = LF then LF # read_text cs else LF # read_text (d # cs))
      else c # read_text (d # cs))"

text \<open>\<^verbatim>\<open>f"{id}_abstract.txt"\<close>, the name joined to \<^verbatim>\<open>CACHE_DIR\<close>.\<close>

definition cache_file :: "string \<Rightarrow> string" where
  "cache_file ident = ident @ ''_abstract.txt''"

text \<open>
  What the body of the \<^verbatim>\<open>try\<close> meets up to the test \<^verbatim>\<open>"RawAbstract" in data\<close>:
  \<^item> \<open>Fails e\<close>: \<^verbatim>\<open>urlopen\<close>, \<^verbatim>\<open>read\<close>, \<^verbatim>\<open>decode\<close>, \<^verbatim>\<open>json.loads\<close> or the test
    itself raised \<open>e\<close>;
  \<^item> \<open>Reply NoField\<close>: the test is false;
  \<^item> \<open>Reply (Field t)\<close>: the test is true and \<^verbatim>\<open>data["RawAbstract"]\<close> is the string
    \<open>t\<close>;
  \<^item> \<open>Reply FieldNotText\<close>: the test is true and \<^verbatim>\<open>data["RawAbstract"]\<close> is not a
    string, so that \<^verbatim>\<open>f.write\<close> raises \<^verbatim>\<open>TypeError\<close> on the file just opened.
\<close>

datatype raw_abstract = NoField | Field string | FieldNotText

datatype response = Fails exn | Reply raw_abstract

text \<open>
  \<^verbatim>\<open>except Exception as e: print(e); raise e\<close>: what is printed for an exception raised
  in the \<^verbatim>\<open>try\<close>. \<^verbatim>\<open>KeyboardInterrupt\<close> is no \<^verbatim>\<open>Exception\<close> and passes unprinted.
\<close>

definition caught :: "exn \<Rightarrow> exn list" where
  "caught e = (if e = KeyboardInterrupt then [] else [e])"

text \<open>
  The result, the disk afterwards, the keys fetched from the remote service (none or
  one), and the exceptions printed to standard output (none or one).
\<close>

definition lookup_abstract ::
  "path \<Rightarrow> (string \<Rightarrow> response) \<Rightarrow> disk \<Rightarrow> string
     \<Rightarrow> (exn + string) \<times> disk \<times> string list \<times> exn list" where
  "lookup_abstract CACHE_DIR remote d ident =
     (if path_exists d CACHE_DIR (cache_file ident) then
        (case target d CACHE_DIR (cache_file ident) of
           Inl e \<Rightarrow> (Inl e, d, [], [])
         | Inr p \<Rightarrow>
             (case files d p of
                None \<Rightarrow> (Inl IsADirectoryError, d, [], [])
              | Some stored \<Rightarrow> (Inr (read_text stored), d, [], [])))
      else
        (case remote ident of
           Fails e \<Rightarrow> (Inl e, d, [ident], caught e)
         | Reply NoField \<Rightarrow> (Inr ''Abstract not found.'', d, [ident], [])
         | Reply (Field t) \<Rightarrow>
             (case open_w d CACHE_DIR (cache_file ident) of
                Inl e \<Rightarrow> (Inl e, d, [ident], [e])
              | Inr p \<Rightarrow> (Inr t, d\<lparr>files := (files d)(p \<mapsto> t)\<rparr>, [ident], []))
         | Reply FieldNotText \<Rightarrow>
             (case open_w d CACHE_DIR (cache_file ident) of
                Inl e \<Rightarrow> (Inl e, d, [ident], [e])
              | Inr p \<Rightarrow>
                  (Inl TypeError, d\<lparr>files := (files d)(p \<mapsto> [])\<rparr>, [ident], [TypeError]))))"

section \<open>The terminal\<close>

text \<open>
  A curses window is its size (lines, columns), without scrolling, on a terminal whose
  locale encodes every character the program draws. \<^verbatim>\<open>move(y, x)\<close> raises
  \<^verbatim>\<open>curses.error\<close> when the position is outside the window.
\<close>

type_synonym window = "int \<times> int"

definition move :: "window \<Rightarrow> int \<Rightarrow> int \<Rightarrow> bool" where
  "move win y x = (0 \<le> y \<and> y < fst win \<and> 0 \<le> x \<and> x < snd win)"

text \<open>
  Writing a text from the cursor \<open>(y, x)\<close>, true when every character is written
  without error. A newline moves to the start of the next line and is an error on the
  last line. Every other character is taken to fill one cell, as the printable characters
  do (a tab, a carriage return, a backspace and the other control characters, which curses
  draws in their own ways, are not told apart from them), and moves the cursor right, at
  the right margin to the start of the next line; at the right margin of the last line,
  the lower right corner, that is an error.
\<close>

fun put :: "window \<Rightarrow> int \<Rightarrow> int \<Rightarrow> string \<Rightarrow> bool" where
  "put win y x [] = True"
| "put win y x (c # cs) =
     (if c = LF then (if y + 1 < fst win then put win (y + 1) 0 cs else False)
      else if x + 1 < snd win then put win y (x + 1) cs
      else if y + 1 < fst win then put win (y + 1) 0 cs
      else False)"

text \<open>
  \<^verbatim>\<open>addstr(y, x, s)\<close>: \<open>None\<close> when the call returns. A text with a NUL character is
  refused with \<^verbatim>\<open>ValueError\<close> before anything is drawn; \<^verbatim>\<open>curses.error\<close> is raised
  when the position is outside the window or the text cannot be written from there.
\<close>

definition addstr :: "window \<Rightarrow> int \<Rightarrow> int \<Rightarrow> string \<Rightarrow> exn option" where
  "addstr win y x s =
     (if NUL \<in> set s then Some ValueError
      else if move win y x \<and> put win y x s then None
      else Some CursesError)"

text \<open>
  \<^verbatim>\<open>curses.newwin(nlines, ncols, begin_y, begin_x)\<close> on a screen of size \<open>scr\<close>: a
  negative argument is an error, a zero size extends the window to the edge of the screen.
\<close>

definition newwin :: "window \<Rightarrow> int \<Rightarrow> int \<Rightarrow> int \<Rightarrow> int \<Rightarrow> window option" where
  "newwin scr nlines ncols begin_y begin_x =
     (if begin_y < 0 \<or> begin_x < 0 \<or> nlines < 0 \<or> ncols < 0 then None
      else let h = (if nlines = 0 then fst scr - begin_y else nlines);
               w = (if ncols = 0 then snd scr - begin_x else ncols)
           in if h \<le> 0 \<or> w \<le> 0 then None else Some (h, w))"

text \<open>\<^verbatim>\<open>s[:n]\<close>: a negative \<open>n\<close> counts from the end.\<close>

definition slice_to :: "'a list \<Rightarrow> int \<Rightarrow> 'a list" where
  "slice_to s n = (if 0 \<le> n then take (nat n) s else take (nat (int (length s) + n)) s)"

primrec max_len :: "string list \<Rightarrow> nat" where
  "max_len [] = 0"
| "max_len (l # ls) = max (length l) (max_len ls)"

text \<open>One statement after the other: the first exception ends the sequence.\<close>

definition andthen :: "exn option \<Rightarrow> exn option \<Rightarrow> exn option" where
  "andthen a b = (case a of None \<Rightarrow> b | Some e \<Rightarrow> Some e)"

section \<open>The popup (\<^verbatim>\<open>show_popup\<close>)\<close>

text \<open>The loop over \<^verbatim>\<open>items\<close>, from line \<open>current_line\<close> on.\<close>

fun draw_items :: "window \<Rightarrow> int \<Rightarrow> int \<Rightarrow> int \<Rightarrow> string list \<Rightarrow> exn option" where
  "draw_items popup_win popup_height popup_width current_line [] = None"
| "draw_items popup_win popup_height popup_width current_line (item # rest) =
     (if current_line < popup_height - 2
      then (let display_item =
                  (if int (length item) > popup_width - 6
                   then slice_to item (popup_width - 6) else item)
            in andthen (addstr popup_win current_line 3 display_item)
                 (draw_items popup_win popup_height popup_width (current_line + 1) rest))
      else draw_items popup_win popup_height popup_width current_line rest)"

definition footer :: string where
  "footer = ''Press any key to continue''"

text \<open>
  \<open>show_popup wrap scr title message\<close> draws the popup on a screen of size \<open>scr\<close>, up
  to \<^verbatim>\<open>popup_win.refresh()\<close>: \<open>None\<close> when every call returns, the first exception
  otherwise. \<open>wrap\<close> is \<^verbatim>\<open>textwrap.wrap\<close> for a positive width; for any other width
  \<^verbatim>\<open>textwrap.wrap\<close> raises \<^verbatim>\<open>ValueError\<close>. The rule under the title is a row of
  one-cell characters, written here as \<^verbatim>\<open>-\<close>. The key that closes the popup is read
  by the caller.
\<close>

definition show_popup ::
  "(string \<Rightarrow> int \<Rightarrow> string list) \<Rightarrow> window \<Rightarrow> string \<Rightarrow> string \<Rightarrow> exn option" where
  "show_popup wrap scr title message =
     (let max_y = fst scr; max_x = snd scr
      in if max_x - 12 \<le> 0 then Some ValueError
         else
           let its = wrap message (max_x - 12) @ [[]];
               popup_width = min (int (max_len (title # its)) + 6) (max_x - 4);
               popup_height = min (int (length its) + 6) (max_y - 4);
               start_y = (max_y - popup_height) div 2;
               start_x = (max_x - popup_width) div 2
           in case newwin scr popup_height popup_width start_y start_x of
                None \<Rightarrow> Some CursesError
              | Some popup_win \<Rightarrow>
                  let title_x = (popup_width - int (length title)) div 2;
                      footer_x = (popup_width - int (length footer)) div 2
                  in andthen (addstr popup_win 1 title_x title)
                       (andthen (addstr popup_win 2 1 (replicate (nat (popup_width - 2)) CHR ''-''))
                          (andthen (draw_items popup_win popup_height popup_width 4 its)
                             (addstr popup_win (popup_height - 2) footer_x footer))))"

section \<open>The search loop (\<^verbatim>\<open>main\<close>)\<close>

record state =
  search_text :: string
  selected_index :: int
  max_y :: int
  max_x :: int

text \<open>
  What the user is shown beyond the main screen: an exception printed to standard output,
  or a popup with its title and message.
\<close>

datatype shown = Printed exn | Popup string string

text \<open>
  What lies outside the process: the disk, the size of the terminal, the keys fetched
  from the remote service so far, the number of times the loop body was entered, and what
  was shown so far.
\<close>

record world =
  fs :: disk
  "term" :: window
  calls :: "string list"
  frames :: nat
  out :: "shown list"

text \<open>
  The remote service (its answer may depend on the number of earlier calls),
  \<^verbatim>\<open>textwrap.wrap\<close>, and the place of \<^verbatim>\<open>CACHE_DIR\<close>, the directory
  \<^verbatim>\<open>abstract_cache\<close> beside the script.
\<close>

record env =
  remote :: "nat \<Rightarrow> string \<Rightarrow> response"
  wrap :: "string \<Rightarrow> int \<Rightarrow> string list"
  CACHE_DIR :: path

text \<open>
  What \<^verbatim>\<open>getch()\<close> delivers: a key code; the code \<^verbatim>\<open>KEY_RESIZE\<close> after the terminal
  took a new size; or \<^verbatim>\<open>KeyboardInterrupt\<close>.
\<close>

datatype input = Key int | Resize int int | Interrupt

abbreviation KEY_DOWN :: int where "KEY_DOWN \<equiv> 258"
abbreviation KEY_UP :: int where "KEY_UP \<equiv> 259"
abbreviation KEY_BACKSPACE :: int where "KEY_BACKSPACE \<equiv> 263"
abbreviation KEY_ENTER :: int where "KEY_ENTER \<equiv> 343"
abbreviation KEY_RESIZE :: int where "KEY_RESIZE \<equiv> 410"

text \<open>
  The key code of an input (\<open>Interrupt\<close> delivers none: the loop tests for it first),
  and the size of the terminal after it.
\<close>

fun key_of :: "input \<Rightarrow> int" where
  "key_of (Key k) = k"
| "key_of (Resize y x) = KEY_RESIZE"
| "key_of Interrupt = 0"

fun resize :: "input \<Rightarrow> world \<Rightarrow> world" where
  "resize (Resize y x) w = w\<lparr>term := (y, x)\<rparr>"
| "resize i w = w"

text \<open>Lines 130-135: the selection is brought into the bounds of the filtered view.\<close>

definition clamp :: "string list \<Rightarrow> int \<Rightarrow> int" where
  "clamp fi sel = (if fi \<noteq> [] then max (min sel (int (length fi) - 1)) 0 else 0)"

text \<open>The decimal digits of a number, for \<^verbatim>\<open>f"Results ({len(filtered_items)} items):"\<close>.\<close>

fun decimal :: "nat \<Rightarrow> string" where
  "decimal n =
     (if n < 10 then [''0123456789'' ! n]
      else decimal (n div 10) @ [''0123456789'' ! (n mod 10)])"

declare decimal.simps [simp del]

definition title_line :: string where
  "title_line = ''JMM Abstract Search''"

text \<open>
  Lines 154-163, the item lines from index \<open>idx\<close> on: \<^verbatim>\<open>curses.error\<close> ends the loop
  and is dropped, any other exception leaves it.
\<close>

fun draw_lines :: "window \<Rightarrow> int \<Rightarrow> int \<Rightarrow> string list \<Rightarrow> exn option" where
  "draw_lines scr sel idx [] = None"
| "draw_lines scr sel idx (item # rest) =
     (case addstr scr (6 + idx) 2 ((if idx = sel then ''> '' else ''  '') @ item) of
        None \<Rightarrow> draw_lines scr sel (idx + 1) rest
      | Some e \<Rightarrow> (if e = CursesError then None else Some e))"

text \<open>
  Lines 137-176 on a screen of size \<open>scr\<close>: the exception that leaves the block, if any.
  The help text is drawn inside \<^verbatim>\<open>try ... except curses.error\<close> and has no NUL, so it
  raises nothing that leaves the block.
\<close>

definition render :: "window \<Rightarrow> state \<Rightarrow> string list \<Rightarrow> exn option" where
  "render scr s fi =
     andthen (addstr scr 0 0 title_line)
       (andthen (addstr scr 1 0 (replicate (length title_line) CHR ''=''))
          (andthen (addstr scr 3 0 ''Search: '')
             (andthen (addstr scr 3 8 (search_text s))
                (andthen (addstr scr 4 0 (replicate (nat (max_x s - 1)) CHR ''-''))
                   (andthen (addstr scr 5 0
                               (''Results ('' @ decimal (length fi) @ '' items):''))
                      (andthen (draw_lines scr (selected_index s) 0 (slice_to fi (max_y s - 7)))
                         (if move scr 3 (8 + int (length (search_text s))) then None
                          else Some CursesError)))))))"

text \<open>The chain \<^verbatim>\<open>if key == 27: ... elif ...\<close> of lines 185-211.\<close>

datatype action = Break | Continue state | Activate

definition handle_key :: "state \<Rightarrow> string list \<Rightarrow> int \<Rightarrow> window \<Rightarrow> action" where
  "handle_key s fi key scr =
     (if key = 27 then Break
      else if key = KEY_UP then
        Continue (if selected_index s > 0 then s\<lparr>selected_index := selected_index s - 1\<rparr> else s)
      else if key = KEY_DOWN then
        Continue (if fi \<noteq> [] \<and> selected_index s < int (length fi) - 1
                  then s\<lparr>selected_index := selected_index s + 1\<rparr> else s)
      else if key = KEY_ENTER \<or> key = 10 \<or> key = 13 then
        (if fi \<noteq> [] then Activate else Continue s)
      else if key = KEY_BACKSPACE \<or> key = 127 \<or> key = 8 then
        Continue (s\<lparr>search_text := butlast (search_text s), selected_index := 0\<rparr>)
      else if key = KEY_RESIZE then
        Continue (s\<lparr>max_y := fst scr, max_x := snd scr\<rparr>)
      else if 32 \<le> key \<and> key \<le> 126 then
        Continue (s\<lparr>search_text := search_text s @ [char_of key], selected_index := 0\<rparr>)
      else Continue s)"

text \<open>
  Lines 196-201 up to the drawing of the popup: the exception that leaves them, if any,
  and the world afterwards. What the lookup prints is shown; the popup is shown when it is
  drawn to the end.
\<close>

definition activate :: "env \<Rightarrow> catalog \<Rightarrow> world \<Rightarrow> state \<Rightarrow> string list \<Rightarrow> exn option \<times> world" where
  "activate E c w s fi =
     (let selected_item = fi ! nat (selected_index s)
      in case map_of (jmm_kv c) selected_item of
           None \<Rightarrow> (Some KeyError, w)
         | Some ob \<Rightarrow>
             (case getitem ob ''presno'' of
                Inl e \<Rightarrow> (Some e, w)
              | Inr ident \<Rightarrow>
                  (case lookup_abstract (CACHE_DIR E) (remote E (length (calls w))) (fs w) ident of
                     (r, d, fetched, printed) \<Rightarrow>
                       let w' = w\<lparr>fs := d, calls := calls w @ fetched,
                                  out := out w @ map Printed printed\<rparr>
                       in (case r of
                             Inl e \<Rightarrow> (Some e, w')
                           | Inr abstract \<Rightarrow>
                               (let title = ''Abstract for: '' @ [DQ] @ selected_item @ [DQ];
                                    message = ''Abstract:'' @ [LF] @ abstract
                                in case show_popup (wrap E) (term w') title message of
                                     None \<Rightarrow> (None, w'\<lparr>out := out w' @ [Popup title message]\<rparr>)
                                   | Some e \<Rightarrow> (Some e, w'))))))"

text \<open>
  How a run over a finite sequence of inputs ends: blocked in \<^verbatim>\<open>getch\<close> of the main
  screen (\<open>Waiting\<close>) or of the popup (\<open>WaitingPopup\<close>), left by \<^verbatim>\<open>break\<close>
  (\<open>Closed\<close>), or left by an exception (\<open>Raised\<close>).
\<close>

datatype status = Waiting | WaitingPopup | Closed | Raised exn

text \<open>The head of the loop body up to \<^verbatim>\<open>stdscr.refresh()\<close>.\<close>

definition frame :: "catalog \<Rightarrow> world \<Rightarrow> state \<Rightarrow> exn option \<times> world \<times> state" where
  "frame c w s =
     (let fi = filtered_items (search_text s) (items c);
          s' = s\<lparr>selected_index := clamp fi (selected_index s)\<rparr>;
          w' = w\<lparr>frames := frames w + 1\<rparr>
      in (render (term w') s' fi, w', s'))"

fun main_loop :: "env \<Rightarrow> catalog \<Rightarrow> world \<Rightarrow> state \<Rightarrow> input list \<Rightarrow> status \<times> world \<times> state" where
  "main_loop E c w s [] =
     (case frame c w s of
        (Some e, w', s') \<Rightarrow> (Raised e, w', s')
      | (None, w', s') \<Rightarrow> (Waiting, w', s'))"
| "main_loop E c w s (i # ins) =
     (case frame c w s of
        (Some e, w', s') \<Rightarrow> (Raised e, w', s')
      | (None, w', s') \<Rightarrow>
          (if i = Interrupt then (Closed, w', s')
           else
             (case handle_key s' (filtered_items (search_text s') (items c)) (key_of i)
                     (term (resize i w')) of
                Break \<Rightarrow> (Closed, resize i w', s')
              | Continue s'' \<Rightarrow> main_loop E c (resize i w') s'' ins
              | Activate \<Rightarrow>
                  (case activate E c (resize i w') s'
                          (filtered_items (search_text s') (items c)) of
                     (Some e, w'') \<Rightarrow> (Raised e, w'', s')
                   | (None, w'') \<Rightarrow>
                       (case ins of
                          [] \<Rightarrow> (WaitingPopup, w'', s')
                        | j # ins' \<Rightarrow>
                            (if j = Interrupt then (Raised KeyboardInterrupt, w'', s')
                             else main_loop E c (resize j w'') s' ins'))))))"

text \<open>Lines 114-116: the state before the loop, on a screen of size \<open>scr\<close>.\<close>

definition initial :: "window \<Rightarrow> state" where
  "initial scr = \<lparr>search_text = [], selected_index = 0, max_y = fst scr, max_x = snd scr\<rparr>"

text \<open>
  \<^verbatim>\<open>main(stdscr)\<close>: the agenda is loaded, then the loop runs from the empty query
  (\<^verbatim>\<open>curs_set\<close> and \<^verbatim>\<open>clear\<close> in between are taken to return).
\<close>

definition main :: "env \<Rightarrow> agenda_file \<Rightarrow> world \<Rightarrow> input list \<Rightarrow> status \<times> world" where
  "main E agenda w ins =
     (case main_load agenda of
        Inl e \<Rightarrow> (Raised e, w)
      | Inr c \<Rightarrow>
          (case main_loop E c w (initial (term w)) ins of
             (st, w', s') \<Rightarrow> (st, w')))"

text \<open>The world when the process starts, on a disk \<open>d\<close> and a screen of size \<open>scr\<close>.\<close>

definition boot :: "disk \<Rightarrow> window \<Rightarrow> world" where
  "boot d scr = \<lparr>fs = d, term = scr, calls = [], frames = 0, out = []\<rparr>"

text \<open>
  The script: the assertion \<^verbatim>\<open>CACHE_DIR.is_dir()\<close> at import, then
  \<^verbatim>\<open>curses.wrapper(main)\<close> inside \<^verbatim>\<open>try ... except KeyboardInterrupt\<close>. An
  exception that nothing catches ends the process with its traceback.
\<close>

datatype outcome = Running | ApplicationClosed | Traceback exn

definition script :: "env \<Rightarrow> agenda_file \<Rightarrow> disk \<Rightarrow> window \<Rightarrow> input list \<Rightarrow> outcome \<times> world" where
  "script E agenda d scr ins =
     (if \<not> is_dir d (CACHE_DIR E) then (Traceback AssertionError, boot d scr)
      else
        (case main E agenda (boot d scr) ins of
           (st, w) \<Rightarrow>
             ((case st of
                 Waiting \<Rightarrow> Running
               | WaitingPopup \<Rightarrow> Running
               | Closed \<Rightarrow> ApplicationClosed
               | Raised e \<Rightarrow> (if e = KeyboardInterrupt then ApplicationClosed else Traceback e)),
              w)))"

section \<open>Notions used in the statements\<close>

text \<open>The title of a record that has one.\<close>

definition title_of :: "obj \<Rightarrow> string" where
  "title_of ob = (case map_of ob ''title'' of Some t \<Rightarrow> t | None \<Rightarrow> [])"

text \<open>
  The filtered view as the specification words it: the subsequence of the catalog (the
  records that carry a key, in the order of the file) whose titles contain the query
  case-insensitively.
\<close>

definition spec_filtered_view :: "string \<Rightarrow> obj list \<Rightarrow> string list" where
  "spec_filtered_view q C =
     map title_of (filter (\<lambda>r. str_in (lower q) (lower (title_of r))) C)"

text \<open>The selection is an index into the filtered view of the current query, or 0 if
  that view is empty.\<close>

definition in_range :: "string list \<Rightarrow> state \<Rightarrow> bool" where
  "in_range its s =
     (let fi = filtered_items (search_text s) its
      in if fi = [] then selected_index s = 0
         else 0 \<le> selected_index s \<and> selected_index s < int (length fi))"



text \<open>
  A text of \<open>n\<close> cells, none of them a newline, fits into a window from \<open>(y, x)\<close>
  on: the position is inside and the text ends before the lower right corner.
\<close>

definition fits :: "window \<Rightarrow> int \<Rightarrow> int \<Rightarrow> nat \<Rightarrow> bool" where
  "fits win y x n = (move win y x \<and> y * snd win + x + int n < fst win * snd win)"

subsection \<open>Concrete inputs\<close>

text \<open>The catalog of the specification's scenario.\<close>

definition scenario_agenda :: "obj list" where
  "scenario_agenda =
     [[(''title'', ''Knot Theory''), (''presno'', ''1'')],
      [(''title'', ''Graph Coloring''), (''presno'', ''2'')],
      [(''title'', ''Theory of Rings''), (''presno'', ''3'')]]"

definition scenario_catalog :: catalog where
  "scenario_catalog =
     \<lparr>jmm_kv =
        [(''Knot Theory'', [(''title'', ''Knot Theory''), (''presno'', ''1'')]),
         (''Graph Coloring'', [(''title'', ''Graph Coloring''), (''presno'', ''2'')]),
         (''Theory of Rings'', [(''title'', ''Theory of Rings''), (''presno'', ''3'')])],
      items = [''Knot Theory'', ''Graph Coloring'', ''Theory of Rings'']\<rparr>"

text \<open>Two records with one title.\<close>

definition twice_agenda :: "obj list" where
  "twice_agenda =
     [[(''title'', ''A''), (''presno'', ''1'')], [(''title'', ''A''), (''presno'', ''2'')]]"

definition twice_catalog :: catalog where
  "twice_catalog =
     \<lparr>jmm_kv = [(''A'', [(''title'', ''A''), (''presno'', ''2'')])], items = [''A'']\<rparr>"

text \<open>A record whose title has 61 characters.\<close>

definition long_title :: string where
  "long_title = replicate 61 CHR ''x''"

definition long_agenda :: "obj list" where
  "long_agenda = [[(''title'', long_title), (''presno'', ''1'')]]"



text \<open>
  A disk with the script's directory \<^verbatim>\<open>/app\<close> and the cache directory in it, empty;
  the same with the abstract of key \<open>1\<close> cached; and a disk without the cache directory.
\<close>

definition app_cache :: path where
  "app_cache = [''app'', ''abstract_cache'']"

definition app_disk :: disk where
  "app_disk = \<lparr>dirs = {[''app''], [''app'', ''abstract_cache'']}, files = Map.empty\<rparr>"

definition cached_disk :: disk where
  "cached_disk =
     \<lparr>dirs = {[''app''], [''app'', ''abstract_cache'']},
      files = [[''app'', ''abstract_cache'', ''1_abstract.txt''] \<mapsto> ''abc'']\<rparr>"


text \<open>
  A \<^verbatim>\<open>wrap\<close> that gives one line: newlines become spaces and the line is cut at
  the width. A remote service that cannot be reached, and one that answers every key with
  the text \<open>t\<close>.
\<close>

definition one_line :: "string \<Rightarrow> int \<Rightarrow> string list" where
  "one_line message width =
     [take (nat width) (map (\<lambda>c. if c = LF then CHR '' '' else c) message)]"

definition offline :: env where
  "offline = \<lparr>remote = (\<lambda>n k. Fails (URLError ''unreachable'')),
              wrap = one_line,
              CACHE_DIR = [''app'', ''abstract_cache'']\<rparr>"


text \<open>A state after typing \<open>o\<close> and moving down once, on a screen of 24 lines and 80 columns.\<close>

definition moved :: state where
  "moved = \<lparr>search_text = ''o'', selected_index = 1, max_y = 24, max_x = 80\<rparr>"

section \<open>Text: containment\<close>

lemma starts_with_iff: "starts_with xs ys \<longleftrightarrow> (\<exists>ss. ys = xs @ ss)"
  by (induction xs ys rule: starts_with.induct) auto

lemma str_in_iff: "str_in xs ys \<longleftrightarrow> (\<exists>ps ss. ys = ps @ xs @ ss)"
proof (induction ys)
  case Nil
  show ?case by auto
next
  case (Cons y ys)
  have "(\<exists>ps ss. y # ys = ps @ xs @ ss)
        \<longleftrightarrow> (\<exists>ss. y # ys = xs @ ss) \<or> (\<exists>ps ss. ys = ps @ xs @ ss)"
  proof
    assume "\<exists>ps ss. y # ys = ps @ xs @ ss"
    then obtain ps ss where e: "y # ys = ps @ xs @ ss" by blast
    show "(\<exists>ss. y # ys = xs @ ss) \<or> (\<exists>ps ss. ys = ps @ xs @ ss)"
    proof (cases ps)
      case Nil
      with e show ?thesis by auto
    next
      case (Cons p ps')
      with e have "ys = ps' @ xs @ ss" by simp
      then show ?thesis by blast
    qed
  next
    assume "(\<exists>ss. y # ys = xs @ ss) \<or> (\<exists>ps ss. ys = ps @ xs @ ss)"
    then show "\<exists>ps ss. y # ys = ps @ xs @ ss"
    proof
      assume "\<exists>ss. y # ys = xs @ ss"
      then obtain ss where "y # ys = [] @ xs @ ss" by auto
      then show ?thesis by blast
    next
      assume "\<exists>ps ss. ys = ps @ xs @ ss"
      then obtain ps ss where "ys = ps @ xs @ ss" by blast
      then have "y # ys = (y # ps) @ xs @ ss" by simp
      then show ?thesis by blast
    qed
  qed
  with Cons show ?case by (simp add: starts_with_iff)
qed

lemma str_in_empty: "str_in [] ys"
  by (induction ys) simp_all

lemma filtered_items_filter:
  "filtered_items q its = filter (\<lambda>t. str_in (lower q) (lower t)) its"
  by (cases q) (simp_all add: filtered_items_def lower_def str_in_empty)

section \<open>The catalog\<close>

lemma keys_update:
  "map fst (AList.update k v al) = (if k \<in> fst ` set al then map fst al else map fst al @ [k])"
  by (induction al) auto

lemma dict_snoc: "dict (ps @ [(k, v)]) = AList.update k v (dict ps)"
  by (simp add: dict_def)

text \<open>The keys of a dictionary: every key once, at the place of its first pair.\<close>

lemma keys_dict: "map fst (dict ps) = rev (remdups (rev (map fst ps)))"
proof (induction ps rule: rev_induct)
  case Nil
  show ?case by (simp add: dict_def)
next
  case (snoc p ps)
  obtain k v where p: "p = (k, v)" by (cases p)
  have s: "fst ` set (dict ps) = fst ` set ps"
    using snoc.IH by (metis set_map set_remdups set_rev)
  show ?case
    using snoc.IH by (auto simp: p dict_snoc keys_update s)
qed



lemma zip_titles_map:
  "zip_titles obs = Inr ps \<Longrightarrow> ps = map (\<lambda>ob. (title_of ob, ob)) obs"
proof (induction obs arbitrary: ps)
  case Nil
  then show ?case by simp
next
  case (Cons ob obs)
  then show ?case
    by (auto simp: getitem_def title_of_def split: option.splits sum.splits)
qed

lemma items_of_load:
  assumes "main_load (Parsed object) = Inr c"
  shows "items c = rev (remdups (rev (map title_of (filtered object))))"
proof -
  from assms obtain ps where z: "zip_titles (filtered object) = Inr ps"
    and c: "c = \<lparr>jmm_kv = dict ps, items = map fst (dict ps)\<rparr>"
    by (auto simp: main_load_def split: sum.splits)
  from zip_titles_map [OF z] have "map fst ps = map title_of (filtered object)"
    by (simp add: o_def)
  with c show ?thesis by (simp add: keys_dict)
qed

lemma main_load_filtered: "main_load (Parsed object) = main_load (Parsed (filtered object))"
  by (simp add: main_load_def filtered_def)

lemma scenario_load: "main_load (Parsed scenario_agenda) = Inr scenario_catalog"
  by (simp add: main_load_def scenario_agenda_def scenario_catalog_def filtered_def has_field_def
      getitem_def dict_def)

lemma twice_load: "main_load (Parsed twice_agenda) = Inr twice_catalog"
  by (simp add: main_load_def twice_agenda_def twice_catalog_def filtered_def has_field_def
      getitem_def dict_def)

section \<open>The filtered view\<close>

text \<open>
  Claim C1, as the program has it. For every query and every agenda that loads, the
  filtered view is the subsequence, in order, of the titles the loop searches that contain
  the query case-insensitively, and for the empty query it is that whole list. The titles
  the loop searches are the keys of the title-to-record dictionary: the titles of the
  records that carry a key, each title once, at the place of its first record. Where the
  titles of these records are pairwise distinct, this is the subsequence of the catalog
  itself, and the empty query gives the catalog's order.
\<close>

theorem filtered_view_of_catalog:
  assumes "main_load (Parsed object) = Inr c"
  shows "filtered_items q (items c)
           = filter (\<lambda>t. \<exists>ps ss. lower t = ps @ lower q @ ss)
               (rev (remdups (rev (map title_of (filtered object)))))
         \<and> filtered_items [] (items c) = rev (remdups (rev (map title_of (filtered object))))
         \<and> (distinct (map title_of (filtered object)) \<longrightarrow>
              filtered_items q (items c) = spec_filtered_view q (filtered object)
              \<and> filtered_items [] (items c) = map title_of (filtered object))"
proof -
  let ?ts = "map title_of (filtered object)"
  have i: "items c = rev (remdups (rev ?ts))"
    by (rule items_of_load [OF assms])
  have a: "filtered_items q (items c)
             = filter (\<lambda>t. \<exists>ps ss. lower t = ps @ lower q @ ss) (rev (remdups (rev ?ts)))"
    by (simp add: filtered_items_filter i str_in_iff)
  have b: "filtered_items [] (items c) = rev (remdups (rev ?ts))"
    by (simp add: filtered_items_def i)
  have d: "rev (remdups (rev ?ts)) = ?ts" if "distinct ?ts"
    using that by (simp add: distinct_remdups_id)
  have e: "filtered_items q (items c) = spec_filtered_view q (filtered object)" if "distinct ?ts"
    using d [OF that] by (simp add: filtered_items_filter i spec_filtered_view_def filter_map o_def)
  have f: "filtered_items [] (items c) = ?ts" if "distinct ?ts"
    using b d [OF that] by simp
  from a b e f show ?thesis by blast
qed

text \<open>The scenario of the specification: the query \<open>theory\<close> on its three records.\<close>

theorem filtered_view_of_catalog_witness:
  "main_load (Parsed scenario_agenda) = Inr scenario_catalog
   \<and> distinct (map title_of (filtered scenario_agenda))
   \<and> filtered_items ''theory'' (items scenario_catalog)
       = spec_filtered_view ''theory'' (filtered scenario_agenda)
   \<and> filtered_items ''theory'' (items scenario_catalog) = [''Knot Theory'', ''Theory of Rings'']"
proof -
  have d: "distinct (map title_of (filtered scenario_agenda))"
    by (simp add: scenario_agenda_def filtered_def has_field_def title_of_def)
  have v: "filtered_items ''theory'' (items scenario_catalog) = [''Knot Theory'', ''Theory of Rings'']"
    by code_simp
  from filtered_view_of_catalog [OF scenario_load, of "''theory''"] d
  have e: "filtered_items ''theory'' (items scenario_catalog)
             = spec_filtered_view ''theory'' (filtered scenario_agenda)"
    by blast
  show ?thesis
    by (rule conjI [OF scenario_load conjI [OF d conjI [OF e v]]])
qed

text \<open>
  Two records with the title \<open>A\<close>: the loop searches one title, the catalog has two
  records, so the view of the empty query is not the catalog's sequence.
\<close>

theorem duplicate_title_shown_once:
  "main_load (Parsed twice_agenda) = Inr twice_catalog
   \<and> filtered_items [] (items twice_catalog) = [''A'']
   \<and> spec_filtered_view [] (filtered twice_agenda) = [''A'', ''A'']
   \<and> filtered_items [] (items twice_catalog) \<noteq> spec_filtered_view [] (filtered twice_agenda)"
proof -
  have v: "filtered_items [] (items twice_catalog) = [''A'']"
    by (simp add: twice_catalog_def filtered_items_def)
  have c: "spec_filtered_view [] (filtered twice_agenda) = [''A'', ''A'']"
    by (simp add: twice_agenda_def filtered_def has_field_def spec_filtered_view_def title_of_def
        lower_def)
  from twice_load v c show ?thesis by simp
qed



section \<open>Files\<close>

lemma split_slash_plain: "CHR ''/'' \<notin> set s \<Longrightarrow> split_slash s = [s]"
  by (induction s) auto



text \<open>A name without \<^verbatim>\<open>/\<close> lies directly in the directory it is joined to.\<close>

lemma target_plain:
  assumes "CHR ''/'' \<notin> set name" and "is_dir d base"
  shows "target d base name = Inr (base @ [name])"
proof -
  have "take 1 name \<noteq> ''/''"
    using assms(1) by (cases name) auto
  with assms show ?thesis
    by (simp add: target_def split_slash_plain)
qed

lemma cache_file_plain: "CHR ''/'' \<in> set (cache_file K) \<longleftrightarrow> CHR ''/'' \<in> set K"
  by (auto simp: cache_file_def)

lemma cache_file_NUL: "NUL \<in> set (cache_file K) \<longleftrightarrow> NUL \<in> set K"
  by (auto simp: cache_file_def)

section \<open>The abstract cache\<close>

text \<open>A lookup that finds the cache file reads it, calls no one and writes nothing.\<close>

lemma lookup_abstract_cached:
  assumes "NUL \<notin> set K" and "target d D (cache_file K) = Inr p" and "files d p = Some stored"
  shows "lookup_abstract D rem d K = (Inr (read_text stored), d, [], [])"
  using assms by (simp add: lookup_abstract_def path_exists_def cache_file_NUL)


text \<open>
  A lookup of a key without \<^verbatim>\<open>/\<close> and NUL that finds nothing and gets a text writes
  it to the file of that key directly in the cache directory.
\<close>

lemma lookup_abstract_fetched:
  assumes "is_dir d D" and "CHR ''/'' \<notin> set K" and "NUL \<notin> set K"
    and "files d (D @ [cache_file K]) = None" and "D @ [cache_file K] \<notin> dirs d"
    and "rem K = Reply (Field T)"
  shows "lookup_abstract D rem d K
           = (Inr T, d\<lparr>files := (files d)(D @ [cache_file K] \<mapsto> T)\<rparr>, [K], [])"
proof -
  have t: "target d D (cache_file K) = Inr (D @ [cache_file K])"
    using assms(1,2) by (intro target_plain) (simp_all add: cache_file_plain)
  then have "\<not> path_exists d D (cache_file K)"
    using assms(4,5) by (simp add: path_exists_def)
  with t assms(3,6) show ?thesis
    by (simp add: lookup_abstract_def open_w_def cache_file_NUL)
qed

lemma read_text_without_CR: "CR \<notin> set t \<Longrightarrow> read_text t = t"
  by (induction t rule: read_text.induct) auto

text \<open>
  A text without carriage returns comes back from the cache as it was fetched, with no
  further remote call.
\<close>

lemma lookup_abstract_roundtrip:
  assumes "is_dir d D" and "CHR ''/'' \<notin> set K" and "NUL \<notin> set K"
    and "files d (D @ [cache_file K]) = None" and "D @ [cache_file K] \<notin> dirs d"
    and "rem K = Reply (Field T)" and "CR \<notin> set T"
    and "lookup_abstract D rem d K = (r, d', fetched, printed)"
  shows "lookup_abstract D rem' d' K = (Inr T, d', [], [])"
proof -
  from lookup_abstract_fetched [of d D K rem T] assms(1-6,8)
  have d': "d' = d\<lparr>files := (files d)(D @ [cache_file K] \<mapsto> T)\<rparr>" by simp
  have "is_dir d' D" using assms(1) by (simp add: d' is_dir_def)
  then have "target d' D (cache_file K) = Inr (D @ [cache_file K])"
    using assms(2) by (intro target_plain) (simp_all add: cache_file_plain)
  moreover have "files d' (D @ [cache_file K]) = Some T" by (simp add: d')
  ultimately show ?thesis
    using lookup_abstract_cached [OF assms(3), of d' D "D @ [cache_file K]" T rem'] assms(7)
    by (simp add: read_text_without_CR)
qed



text \<open>
  Claim C4, at the text \<^verbatim>\<open>a\r\nb\<close>. The first lookup of key \<open>7\<close> fetches the
  text, returns it and stores it as it is; the second lookup, on the disk the first one
  left, makes no remote call and returns \<^verbatim>\<open>a\nb\<close>: the text-mode read has replaced
  \<^verbatim>\<open>\r\n\<close> by \<^verbatim>\<open>\n\<close>.
\<close>

theorem cached_text_loses_carriage_returns:
  "lookup_abstract app_cache (\<lambda>k. Reply (Field [CHR ''a'', CR, LF, CHR ''b''])) app_disk ''7''
     = (Inr [CHR ''a'', CR, LF, CHR ''b''],
        app_disk\<lparr>files := [[''app'', ''abstract_cache'', ''7_abstract.txt'']
                               \<mapsto> [CHR ''a'', CR, LF, CHR ''b'']]\<rparr>,
        [''7''], [])
   \<and> lookup_abstract app_cache (\<lambda>k. Fails (URLError ''unreachable''))
        (app_disk\<lparr>files := [[''app'', ''abstract_cache'', ''7_abstract.txt'']
                                \<mapsto> [CHR ''a'', CR, LF, CHR ''b'']]\<rparr>) ''7''
     = (Inr [CHR ''a'', LF, CHR ''b''],
        app_disk\<lparr>files := [[''app'', ''abstract_cache'', ''7_abstract.txt'']
                               \<mapsto> [CHR ''a'', CR, LF, CHR ''b'']]\<rparr>,
        [], [])"
  by (simp add: lookup_abstract_def path_exists_def open_w_def target_def cache_file_def
      is_dir_def app_cache_def app_disk_def)

text \<open>
  Claim C5. For a key with no cache file whose remote response lacks the text field, the
  lookup returns the sentinel \<open>Abstract not found.\<close> after one remote call, prints
  nothing and leaves the disk as it was; so the next lookup of the key, whatever the
  remote service then answers, calls it again.
\<close>

theorem sentinel_leaves_no_entry:
  assumes "\<not> path_exists d D (cache_file K)" and "rem K = Reply NoField"
  shows "lookup_abstract D rem d K = (Inr ''Abstract not found.'', d, [K], [])
         \<and> (\<forall>rem'. fst (snd (snd (lookup_abstract D rem' d K))) = [K])"
  using assms
  by (auto simp: lookup_abstract_def split: response.splits raw_abstract.splits sum.splits)

theorem sentinel_leaves_no_entry_witness:
  "\<not> path_exists app_disk app_cache (cache_file ''7'')
   \<and> (\<lambda>k. Reply NoField) ''7'' = Reply NoField
   \<and> lookup_abstract app_cache (\<lambda>k. Reply NoField) app_disk ''7''
       = (Inr ''Abstract not found.'', app_disk, [''7''], [])
   \<and> fst (snd (snd (lookup_abstract app_cache (\<lambda>k. Fails (URLError ''unreachable''))
                       app_disk ''7''))) = [''7'']"
proof -
  have n: "\<not> path_exists app_disk app_cache (cache_file ''7'')"
    by (simp add: path_exists_def target_def cache_file_def is_dir_def app_cache_def app_disk_def)
  from sentinel_leaves_no_entry [OF n, of "\<lambda>k. Reply NoField"] n
  show ?thesis by simp
qed

section \<open>The terminal\<close>

text \<open>A text without newline is written exactly when it fits.\<close>

lemma put_plain:
  "LF \<notin> set s \<Longrightarrow> move win y x \<Longrightarrow>
   put win y x s = (y * snd win + x + int (length s) < fst win * snd win)"
proof (induction s arbitrary: y x)
  case Nil
  then have b: "0 \<le> y" "y + 1 \<le> fst win" "0 \<le> x" "x < snd win"
    by (simp_all add: move_def)
  then have "(y + 1) * snd win \<le> fst win * snd win"
    by (intro mult_right_mono) simp_all
  then have "y * snd win + snd win \<le> fst win * snd win"
    by (simp add: algebra_simps)
  with b show ?case by simp
next
  case (Cons c cs)
  then have b: "0 \<le> y" "y + 1 \<le> fst win" "0 \<le> x" "x < snd win" and c: "c \<noteq> LF" "LF \<notin> set cs"
    by (auto simp: move_def)
  show ?case
  proof (cases "x + 1 < snd win")
    case True
    then have "move win y (x + 1)" using b by (simp add: move_def)
    from Cons.IH [OF c(2) this] True c show ?thesis by (simp add: algebra_simps)
  next
    case False
    with b have x: "x + 1 = snd win" by simp
    show ?thesis
    proof (cases "y + 1 < fst win")
      case True
      then have m: "move win (y + 1) 0" using b by (simp add: move_def)
      have e: "y * snd win + x + int (length (c # cs))
                 = (y + 1) * snd win + 0 + int (length cs)"
        by (simp add: x [symmetric] algebra_simps)
      have "put win y x (c # cs) = put win (y + 1) 0 cs"
        using c True \<open>\<not> x + 1 < snd win\<close> by simp
      also have "\<dots> = ((y + 1) * snd win + 0 + int (length cs) < fst win * snd win)"
        by (rule Cons.IH [OF c(2) m])
      also have "\<dots> = (y * snd win + x + int (length (c # cs)) < fst win * snd win)"
        by (simp only: e)
      finally show ?thesis .
    next
      case False
      with b have y: "y + 1 = fst win" by simp
      have "fst win * snd win = y * snd win + snd win"
        by (simp add: y [symmetric] algebra_simps)
      with False \<open>\<not> x + 1 < snd win\<close> c x show ?thesis by simp
    qed
  qed
qed

lemma addstr_plain:
  "LF \<notin> set s \<Longrightarrow> NUL \<notin> set s \<Longrightarrow>
   addstr win y x s = (if fits win y x (length s) then None else Some CursesError)"
  by (auto simp: addstr_def fits_def put_plain)

lemma addstr_row:
  "c \<noteq> LF \<Longrightarrow> c \<noteq> NUL \<Longrightarrow>
   addstr win y x (replicate n c) = (if fits win y x n then None else Some CursesError)"
  using addstr_plain [of "replicate n c" win y x] by auto

lemma addstr_left_of_window: "x < 0 \<Longrightarrow> NUL \<notin> set s \<Longrightarrow> addstr win y x s = Some CursesError"
  by (simp add: addstr_def move_def)

lemma draw_lines_plain:
  "\<forall>item \<in> set its. NUL \<notin> set item \<Longrightarrow> draw_lines scr sel idx its = None"
proof (induction its arbitrary: idx)
  case Nil
  show ?case by simp
next
  case (Cons item its)
  then show ?case by (auto simp: addstr_def split: option.splits)
qed

lemma decimal_digits: "set (decimal n) \<subseteq> set ''0123456789''"
proof (induction n rule: decimal.induct)
  case (1 n)
  have d: "''0123456789'' ! k \<in> set ''0123456789''" if "k < 10" for k
    using that by (intro nth_mem) simp
  show ?case
  proof (cases "n < 10")
    case True
    with d [of n] show ?thesis by (subst decimal.simps) simp
  next
    case False
    with "1.IH" d [of "n mod 10"] show ?thesis by (subst decimal.simps) auto
  qed
qed

lemma decimal_plain: "LF \<notin> set (decimal n) \<and> NUL \<notin> set (decimal n)"
proof -
  have "LF \<notin> set ''0123456789''" and "NUL \<notin> set ''0123456789''"
    by simp_all
  with decimal_digits [of n] show ?thesis by blast
qed

lemma decimal_small: "n < 10 \<Longrightarrow> length (decimal n) = 1"
  by (subst decimal.simps) simp

text \<open>
  With a query and items free of NUL and newline, the main screen is drawn when its
  fixed lines, the query and the cursor fit; the item lines cannot make it fail.
\<close>

lemma render_plain:
  assumes "LF \<notin> set (search_text s)" and "NUL \<notin> set (search_text s)"
    and "\<forall>item \<in> set fi. NUL \<notin> set item"
  shows "render scr s fi =
           (if fits scr 0 0 (length title_line) \<and> fits scr 1 0 (length title_line)
               \<and> fits scr 3 0 (length ''Search: '')
               \<and> fits scr 3 8 (length (search_text s))
               \<and> fits scr 4 0 (nat (max_x s - 1))
               \<and> fits scr 5 0
                    (length (''Results ('' @ decimal (length fi) @ '' items):''))
               \<and> move scr 3 (8 + int (length (search_text s)))
            then None else Some CursesError)"
proof -
  have a: "addstr scr 0 0 title_line
             = (if fits scr 0 0 (length title_line) then None else Some CursesError)"
    by (rule addstr_plain) (simp_all add: title_line_def)
  have b: "addstr scr 3 0 ''Search: ''
             = (if fits scr 3 0 (length ''Search: '') then None else Some CursesError)"
    by (rule addstr_plain) simp_all
  have c: "addstr scr 3 8 (search_text s)
             = (if fits scr 3 8 (length (search_text s)) then None else Some CursesError)"
    by (rule addstr_plain [OF assms(1,2)])
  have "LF \<notin> set (''Results ('' @ decimal (length fi) @ '' items):'')"
    and "NUL \<notin> set (''Results ('' @ decimal (length fi) @ '' items):'')"
    using decimal_plain [of "length fi"] by simp_all
  then have e: "addstr scr 5 0 (''Results ('' @ decimal (length fi) @ '' items):'')
             = (if fits scr 5 0 (length (''Results ('' @ decimal (length fi) @ '' items):''))
                then None else Some CursesError)"
    by (rule addstr_plain)
  have "\<forall>item \<in> set (slice_to fi (max_y s - 7)). NUL \<notin> set item"
    using assms(3) by (auto simp: slice_to_def dest: in_set_takeD)
  then have f: "draw_lines scr (selected_index s) 0 (slice_to fi (max_y s - 7)) = None"
    by (rule draw_lines_plain)
  show ?thesis
    unfolding render_def a b c e f by (simp add: addstr_row andthen_def)
qed

section \<open>The loop\<close>

lemma clamp_in_range:
  "in_range its (s\<lparr>selected_index := clamp (filtered_items (search_text s) its) (selected_index s)\<rparr>)"
  by (auto simp: in_range_def clamp_def Let_def)

lemma clamp_idle:
  "in_range its s \<Longrightarrow> clamp (filtered_items (search_text s) its) (selected_index s) = selected_index s"
  by (auto simp: in_range_def clamp_def Let_def split: if_splits)

lemma frame_in_range: "frame c w s = (b, w', s') \<Longrightarrow> in_range (items c) s'"
  using clamp_in_range [of "items c" s] by (auto simp: frame_def Let_def)

lemma frame_idle:
  "in_range (items c) s \<Longrightarrow>
   frame c w s = (render (term w) s (filtered_items (search_text s) (items c)),
                  w\<lparr>frames := frames w + 1\<rparr>, s)"
  by (simp add: frame_def Let_def clamp_idle)



text \<open>
  The branches of the key chain keep the selection inside the filtered view of the query
  they leave, before the next pass through lines 130-135.
\<close>

lemma handle_key_in_range:
  assumes "in_range its s"
    and "handle_key s (filtered_items (search_text s) its) key scr = Continue s'"
  shows "in_range its s'"
  using assms by (auto simp: handle_key_def in_range_def Let_def split: if_splits)

lemma initial_in_range: "in_range its (initial scr)"
  by (simp add: in_range_def initial_def filtered_items_def)

text \<open>
  Claim C3. However the loop is started and whatever inputs it is given (move-up,
  move-down, printable characters, backspace, and every other key), the state it ends or
  waits in has its selection index inside the filtered view of its query: at least 0 and
  below the number of filtered items, and 0 when the view is empty.
\<close>

theorem selected_index_in_range:
  "in_range (items c) (snd (snd (main_loop E c w s ins)))"
proof (induction E c w s ins rule: main_loop.induct)
  case (1 E c w s)
  obtain b w' s' where f: "frame c w s = (b, w', s')" by (cases "frame c w s")
  from frame_in_range [OF f] show ?case by (cases b) (simp_all add: f)
next
  case (2 E c w s i ins)
  obtain b w' s' where f: "frame c w s = (b, w', s')" by (cases "frame c w s")
  note r = frame_in_range [OF f]
  show ?case
  proof (cases b)
    case (Some x)
    with f r show ?thesis by simp
  next
    case None
    note b = None
    show ?thesis
    proof (cases "i = Interrupt")
      case True
      with f b r show ?thesis by simp
    next
      case False
      note i = False
      let ?fi = "filtered_items (search_text s') (items c)"
      show ?thesis
      proof (cases "handle_key s' ?fi (key_of i) (term (resize i w'))")
        case Break
        with f b i r show ?thesis by simp
      next
        case (Continue s'')
        from "2.IH"(1) [OF f [symmetric] b refl i Continue]
        show ?thesis using f b i Continue by simp
      next
        case Activate
        obtain e w'' where a: "activate E c (resize i w') s' ?fi = (e, w'')"
          by (cases "activate E c (resize i w') s' ?fi")
        show ?thesis
        proof (cases e)
          case (Some x)
          with f b i r Activate a show ?thesis by simp
        next
          case None
          note e = None
          show ?thesis
          proof (cases ins)
            case Nil
            with f b i r Activate a e show ?thesis by simp
          next
            case (Cons j ins')
            show ?thesis
            proof (cases "j = Interrupt")
              case True
              with f b i r Activate a e Cons show ?thesis by simp
            next
              case False
              from "2.IH"(2) [OF f [symmetric] b refl i Activate a [symmetric] e Cons False]
              show ?thesis using f b i Activate a e Cons False by simp
            qed
          qed
        qed
      qed
    qed
  qed
qed

lemma scenario_view_o: "filtered_items ''o'' (items scenario_catalog) = items scenario_catalog"
  by code_simp

lemmas fits_defs = fits_def move_def title_line_def decimal_small


lemma boot_simps:
  "fs (boot d scr) = d" "term (boot d scr) = scr" "calls (boot d scr) = []"
  "frames (boot d scr) = 0" "out (boot d scr) = []"
  by (simp_all add: boot_def)

lemma initial_view: "filtered_items (search_text (initial scr)) its = its"
  by (simp add: initial_def filtered_items_def)


lemma scenario_items: "length (items scenario_catalog) = 3" "items scenario_catalog \<noteq> []"
  by (simp_all add: scenario_catalog_def)

lemma moved_in_range: "in_range (items scenario_catalog) moved"
  by (simp add: in_range_def Let_def moved_def scenario_view_o scenario_items)

text \<open>
  Claim C9. The branch of \<^verbatim>\<open>KEY_RESIZE\<close> stores the new size of the screen and leaves
  the query and the selection as they are; and from a state whose selection is in range
  and whose screen is drawn, the loop goes on after a resize event with the same query and
  selection and the new size.
\<close>

theorem resize_keeps_query_and_selection:
  "handle_key s fi KEY_RESIZE scr = Continue (s\<lparr>max_y := fst scr, max_x := snd scr\<rparr>)
   \<and> (in_range (items c) s
        \<and> render (term w) s (filtered_items (search_text s) (items c)) = None \<longrightarrow>
        main_loop E c w s (Resize y x # ins)
          = main_loop E c (w\<lparr>frames := frames w + 1, term := (y, x)\<rparr>)
              (s\<lparr>max_y := y, max_x := x\<rparr>) ins)"
proof -
  have h: "handle_key s fi KEY_RESIZE scr = Continue (s\<lparr>max_y := fst scr, max_x := snd scr\<rparr>)"
    for s fi scr
    by (simp add: handle_key_def)
  have "main_loop E c w s (Resize y x # ins)
          = main_loop E c (w\<lparr>frames := frames w + 1, term := (y, x)\<rparr>)
              (s\<lparr>max_y := y, max_x := x\<rparr>) ins"
    if "in_range (items c) s"
      and "render (term w) s (filtered_items (search_text s) (items c)) = None"
    using that by (simp add: frame_idle h)
  with h show ?thesis by blast
qed

text \<open>
  The scenario after typing \<open>o\<close> and moving down once: the terminal goes from 24 by 80
  to 30 by 100, and the loop waits with the query \<open>o\<close> and the selection 1.
\<close>

theorem resize_keeps_query_and_selection_witness:
  "in_range (items scenario_catalog) moved
   \<and> render (term (boot app_disk (24, 80))) moved
        (filtered_items (search_text moved) (items scenario_catalog)) = None
   \<and> main_loop offline scenario_catalog (boot app_disk (24, 80)) moved [Resize 30 100]
     = main_loop offline scenario_catalog
         \<lparr>fs = app_disk, term = (30, 100), calls = [], frames = 1, out = []\<rparr>
         \<lparr>search_text = ''o'', selected_index = 1, max_y = 30, max_x = 100\<rparr> []
   \<and> main_loop offline scenario_catalog
         \<lparr>fs = app_disk, term = (30, 100), calls = [], frames = 1, out = []\<rparr>
         \<lparr>search_text = ''o'', selected_index = 1, max_y = 30, max_x = 100\<rparr> []
     = (Waiting, \<lparr>fs = app_disk, term = (30, 100), calls = [], frames = 2, out = []\<rparr>,
        \<lparr>search_text = ''o'', selected_index = 1, max_y = 30, max_x = 100\<rparr>)"
proof -
  let ?s = "\<lparr>search_text = ''o'', selected_index = 1, max_y = 30, max_x = 100\<rparr>"
  let ?w = "\<lparr>fs = app_disk, term = (30, 100), calls = [], frames = 1, out = []\<rparr>"
  have v: "filtered_items (search_text moved) (items scenario_catalog) = items scenario_catalog"
    using scenario_view_o by (simp add: moved_def)
  have r: "render (term (boot app_disk (24, 80))) moved
             (filtered_items (search_text moved) (items scenario_catalog)) = None"
    unfolding v
    by (subst render_plain) (simp_all add: boot_def moved_def scenario_catalog_def fits_defs)
  have i: "in_range (items scenario_catalog) ?s"
    by (simp add: in_range_def Let_def scenario_view_o scenario_items)
  have r': "render (30, 100) ?s (items scenario_catalog) = None"
    by (subst render_plain) (simp_all add: scenario_catalog_def fits_defs)
  have l: "main_loop offline scenario_catalog ?w ?s []
             = (Waiting, \<lparr>fs = app_disk, term = (30, 100), calls = [], frames = 2, out = []\<rparr>, ?s)"
    using r' scenario_view_o by (simp add: frame_idle [OF i])
  from resize_keeps_query_and_selection
         [of moved "[]" "(30, 100)" scenario_catalog "boot app_disk (24, 80)" offline 30 100 "[]"]
       moved_in_range r
  have "main_loop offline scenario_catalog (boot app_disk (24, 80)) moved [Resize 30 100]
     = main_loop offline scenario_catalog ?w ?s []"
    by (simp add: boot_def moved_def)
  with moved_in_range r l show ?thesis by simp
qed




section \<open>Drawing\<close>

lemma max_len_head: "length t \<le> max_len (t # ls)"
  by simp

text \<open>
  On a screen more than 12 columns wide, a popup whose title is longer than the screen
  width less 4 raises \<^verbatim>\<open>curses.error\<close>: the popup is cut to that width and the title,
  which is not cut, is placed at a negative column.
\<close>

lemma show_popup_wide_title:
  assumes "12 < snd scr" and "snd scr - 4 < int (length title)" and "NUL \<notin> set title"
  shows "show_popup wr scr title message = Some CursesError"
proof -
  define its where "its = wr message (snd scr - 12) @ [[]]"
  define pw where "pw = min (int (max_len (title # its)) + 6) (snd scr - 4)"
  define ph where "ph = min (int (length its) + 6) (fst scr - 4)"
  have "int (length title) \<le> int (max_len (title # its))"
    using max_len_head [of title its] by linarith
  with assms(2) have "pw = snd scr - 4"
    by (simp add: pw_def)
  with assms(2) have "(pw - int (length title)) div 2 < 0"
    by simp
  then have a: "addstr win 1 ((pw - int (length title)) div 2) title = Some CursesError" for win
    using assms(3) by (rule addstr_left_of_window)
  have "show_popup wr scr title message =
          (case newwin scr ph pw ((fst scr - ph) div 2) ((snd scr - pw) div 2) of
             None \<Rightarrow> Some CursesError
           | Some popup_win \<Rightarrow>
               andthen (addstr popup_win 1 ((pw - int (length title)) div 2) title)
                 (andthen (addstr popup_win 2 1 (replicate (nat (pw - 2)) CHR ''-''))
                    (andthen (draw_items popup_win ph pw 4 its)
                       (addstr popup_win (ph - 2) ((pw - int (length footer)) div 2) footer))))"
    using assms(1) unfolding show_popup_def Let_def its_def pw_def ph_def by simp
  then show ?thesis
    by (simp add: a andthen_def split: option.split)
qed

text \<open>
  Claim C6, at a title of 61 characters on a terminal of 24 lines and 80 columns. The
  abstract of the record is in the cache; Enter on the item opens the popup, whose title
  has 77 characters and whose width is cut to 76: \<^verbatim>\<open>curses.error\<close> leaves
  \<^verbatim>\<open>show_popup\<close> and the loop, whatever \<^verbatim>\<open>textwrap.wrap\<close> returns, and the process
  ends with the traceback, no popup shown.
\<close>

theorem long_title_popup_raises:
  "script \<lparr>remote = rem, wrap = wr, CACHE_DIR = app_cache\<rparr> (Parsed long_agenda) cached_disk
     (24, 80) [Key 10]
   = (Traceback CursesError,
      \<lparr>fs = cached_disk, term = (24, 80), calls = [], frames = 1, out = []\<rparr>)"
proof -
  let ?E = "\<lparr>remote = rem, wrap = wr, CACHE_DIR = app_cache\<rparr>"
  let ?c = "\<lparr>jmm_kv = [(long_title, [(''title'', long_title), (''presno'', ''1'')])],
             items = [long_title]\<rparr>"
  let ?w = "\<lparr>fs = cached_disk, term = (24, 80), calls = [], frames = 1, out = []\<rparr>"
  have l: "main_load (Parsed long_agenda) = Inr ?c"
    by (simp add: main_load_def long_agenda_def filtered_def has_field_def getitem_def dict_def)
  have n: "length long_title = 61" "NUL \<notin> set long_title"
    by (simp_all add: long_title_def)
  have d: "is_dir cached_disk (CACHE_DIR ?E)"
    by (simp add: is_dir_def cached_disk_def app_cache_def)
  have r: "render (24, 80) (initial (24, 80)) [long_title] = None"
    by (subst render_plain) (simp_all add: initial_def n fits_defs)
  have f: "frame ?c (boot cached_disk (24, 80)) (initial (24, 80)) = (None, ?w, initial (24, 80))"
    by (simp add: frame_idle [OF initial_in_range] initial_view r boot_def)
  have h: "handle_key (initial (24, 80)) [long_title] 10 (24, 80) = Activate"
    by (simp add: handle_key_def)
  have k: "lookup_abstract app_cache (rem 0) cached_disk ''1'' = (Inr ''abc'', cached_disk, [], [])"
    by (simp add: lookup_abstract_def path_exists_def target_def cache_file_def is_dir_def
        app_cache_def cached_disk_def)
  have p: "show_popup wr (24, 80) t message = Some CursesError"
    if "76 < int (length t)" and "NUL \<notin> set t" for t message
    by (rule show_popup_wide_title) (use that in simp_all)
  have a: "activate ?E ?c ?w (initial (24, 80)) [long_title] = (Some CursesError, ?w)"
    by (simp add: activate_def initial_def getitem_def k p n)
  show ?thesis
    using d f h a by (simp add: script_def main_def l initial_view boot_simps)
qed

section \<open>The script\<close>














text \<open>
  Claim C7. With the cache directory in place, when the agenda file is missing or is not
  JSON, loading raises, the exception leaves the process as a traceback, and the loop body
  is never entered (no frame, no remote call, nothing shown, the disk untouched). A record
  without the lookup key has no part in loading: the result, error or catalog, is that of
  the agenda without it, and the titles searched are exactly those of the records that
  carry the key.
\<close>

theorem load_failure_before_loop:
  "(is_dir d (CACHE_DIR E) \<longrightarrow>
      script E Missing d scr ins
        = (Traceback FileNotFoundError,
           \<lparr>fs = d, term = scr, calls = [], frames = 0, out = []\<rparr>)
      \<and> script E Malformed d scr ins
        = (Traceback JSONDecodeError,
           \<lparr>fs = d, term = scr, calls = [], frames = 0, out = []\<rparr>))
   \<and> main_load (Parsed object) = main_load (Parsed (filtered object))
   \<and> (\<not> has_field ''presno'' ob \<longrightarrow>
        main_load (Parsed (xs @ ob # ys)) = main_load (Parsed (xs @ ys)))
   \<and> (\<forall>c. main_load (Parsed object) = Inr c \<longrightarrow>
        set (items c) = title_of ` {ob \<in> set object. has_field ''presno'' ob})"
proof -
  have a: "script E Missing d scr ins
        = (Traceback FileNotFoundError,
           \<lparr>fs = d, term = scr, calls = [], frames = 0, out = []\<rparr>)
      \<and> script E Malformed d scr ins
        = (Traceback JSONDecodeError,
           \<lparr>fs = d, term = scr, calls = [], frames = 0, out = []\<rparr>)"
    if "is_dir d (CACHE_DIR E)"
    using that by (simp add: script_def main_def main_load_def boot_def)
  have b: "main_load (Parsed (xs @ ob # ys)) = main_load (Parsed (xs @ ys))"
    if "\<not> has_field ''presno'' ob"
    using that by (simp add: main_load_def filtered_def)
  have e: "set (items c) = title_of ` {ob \<in> set object. has_field ''presno'' ob}"
    if "main_load (Parsed object) = Inr c" for c
    using items_of_load [OF that] by (simp add: filtered_def)
  from a b e main_load_filtered show ?thesis by blast
qed

text \<open>
  The scenario's agenda with a record \<open>Coffee Break\<close> that has no key after its first
  record; and a missing or malformed agenda file beside an empty cache directory.
\<close>

theorem load_failure_before_loop_witness:
  "is_dir app_disk (CACHE_DIR offline)
   \<and> script offline Missing app_disk (24, 80) [Key 10]
     = (Traceback FileNotFoundError,
        \<lparr>fs = app_disk, term = (24, 80), calls = [], frames = 0, out = []\<rparr>)
   \<and> script offline Malformed app_disk (24, 80) [Key 10]
     = (Traceback JSONDecodeError,
        \<lparr>fs = app_disk, term = (24, 80), calls = [], frames = 0, out = []\<rparr>)
   \<and> \<not> has_field ''presno'' [(''title'', ''Coffee Break'')]
   \<and> main_load (Parsed ([[(''title'', ''Knot Theory''), (''presno'', ''1'')]]
        @ [(''title'', ''Coffee Break'')]
        # [[(''title'', ''Graph Coloring''), (''presno'', ''2'')],
           [(''title'', ''Theory of Rings''), (''presno'', ''3'')]]))
     = Inr scenario_catalog
   \<and> set (items scenario_catalog)
     = title_of ` {ob \<in> set scenario_agenda. has_field ''presno'' ob}"
proof -
  have d: "is_dir app_disk (CACHE_DIR offline)"
    by (simp add: is_dir_def app_disk_def offline_def)
  have h: "\<not> has_field ''presno'' [(''title'', ''Coffee Break'')]"
    by (simp add: has_field_def)
  have s: "[[(''title'', ''Knot Theory''), (''presno'', ''1'')]]
        @ [[(''title'', ''Graph Coloring''), (''presno'', ''2'')],
           [(''title'', ''Theory of Rings''), (''presno'', ''3'')]] = scenario_agenda"
    by (simp add: scenario_agenda_def)
  from load_failure_before_loop
         [of app_disk offline "(24, 80)" "[Key 10]" scenario_agenda
             "[(''title'', ''Coffee Break'')]"
             "[[(''title'', ''Knot Theory''), (''presno'', ''1'')]]"
             "[[(''title'', ''Graph Coloring''), (''presno'', ''2'')],
               [(''title'', ''Theory of Rings''), (''presno'', ''3'')]]"]
       d h s scenario_load
  show ?thesis by simp
qed

end
